theory Spec2Isabelle
  imports Main "HOL-Library.Word"
begin

section \<open>Cluster settings of type duration (pkg/settings/duration.go)\<close>

text \<open>
  A shallow embedding of \<^verbatim>\<open>pkg/settings/duration.go\<close>. The setting is a record that
  every method receives and returns (the Go receiver \<^verbatim>\<open>d *DurationSetting\<close>); the
  atomic load and swap on the field \<^verbatim>\<open>v\<close> are single steps of a sequential model.
  A Go \<^verbatim>\<open>error\<close> is a value of the datatype \<open>error\<close> and \<^verbatim>\<open>nil\<close> is \<open>None\<close>;
  a \<^verbatim>\<open>panic\<close> is the \<open>Inl\<close> branch of a sum.
\<close>

subsection \<open>Durations and errors\<close>

text \<open>\<^verbatim>\<open>time.Duration\<close> is an \<^verbatim>\<open>int64\<close> count of nanoseconds; \<^verbatim>\<open>int64(v)\<close> keeps the bits.\<close>

type_synonym duration = "64 word"

definition Nanosecond :: duration where
  "Nanosecond = 1"

definition Second :: duration where
  "Second = 1000000000 * Nanosecond"

text \<open>
  An error built by \<^verbatim>\<open>errors.Errorf(format, args...)\<close> keeps its format string and its
  arguments; \<^verbatim>\<open>errors.Wrap(err, msg)\<close> keeps the wrapped error and the message.
\<close>

datatype fmt_arg = StrArg string | DurArg duration

datatype error = Errorf string "fmt_arg list" | Wrap error string

text \<open>
  The value of a \<^verbatim>\<open>panic\<close>: the error handed to \<^verbatim>\<open>panic(err)\<close>, or the registry's
  refusal of a key that is already defined.
\<close>

datatype panic = Panic error | DuplicateKey string

subsection \<open>The setting\<close>

text \<open>
  Modelled from the spec: the embedded struct \<^verbatim>\<open>common\<close> is not part of duration.go.
  The spec's data model gives a setting a key (assigned at registration), a description and
  one optional zero-argument change hook. The hook is side-effecting code of the surrounding
  program: it is a transformer of that program's state \<open>'w\<close>, and \<open>None\<close> is the nil hook.
\<close>

record 'w common =
  key :: string
  description :: string
  onChange :: "('w \<Rightarrow> 'w) option"

record 'w DurationSetting = "'w common" +
  defaultValue :: duration
  v :: duration
  validateFn :: "(duration \<Rightarrow> error option) option"

text \<open>
  Modelled from the spec: \<^verbatim>\<open>changed()\<close> of \<^verbatim>\<open>common\<close> is missing from the sources; the spec
  says the core "calls its own attached callback directly", "if any".
\<close>

definition changed :: "'w DurationSetting \<Rightarrow> 'w \<Rightarrow> 'w" where
  "changed d w = (case onChange d of None \<Rightarrow> w | Some fn \<Rightarrow> fn w)"

text \<open>
  Modelled from the spec: \<^verbatim>\<open>setOnChange(fn)\<close> of \<^verbatim>\<open>common\<close> is missing from the sources; the
  spec says "at most one callback is retained; attaching a new one replaces the old".
\<close>

definition setOnChange :: "'w DurationSetting \<Rightarrow> ('w \<Rightarrow> 'w) option \<Rightarrow> 'w DurationSetting" where
  "setOnChange d fn = d\<lparr>onChange := fn\<rparr>"

text \<open>\<^verbatim>\<open>Get\<close>: \<^verbatim>\<open>time.Duration(atomic.LoadInt64(&d.v))\<close>.\<close>

definition Get :: "'w DurationSetting \<Rightarrow> duration" where
  "Get d = v d"

text \<open>
  \<^verbatim>\<open>String\<close>: \<^verbatim>\<open>EncodeDuration(d.Get())\<close>. The encoder is not part of duration.go and is a
  parameter.
\<close>

definition String' :: "(duration \<Rightarrow> string) \<Rightarrow> 'w DurationSetting \<Rightarrow> string" where
  "String' EncodeDuration d = EncodeDuration (Get d)"

definition Typ :: "'w DurationSetting \<Rightarrow> string" where
  "Typ d = ''d''"

text \<open>\<^verbatim>\<open>Validate\<close>: the error of \<^verbatim>\<open>validateFn\<close>, as it is, when there is a validator.\<close>

definition Validate :: "'w DurationSetting \<Rightarrow> duration \<Rightarrow> error option" where
  "Validate d x =
     (case validateFn d of
        None \<Rightarrow> None
      | Some f \<Rightarrow> (case f x of Some err \<Rightarrow> Some err | None \<Rightarrow> None))"

text \<open>
  \<^verbatim>\<open>set\<close>: validate, swap the stored word, call \<^verbatim>\<open>changed()\<close> when the swapped-out word
  differs from the new one. The result is the returned error, the setting and the state of
  the surrounding program.
\<close>

definition set' :: "'w DurationSetting \<Rightarrow> duration \<Rightarrow> 'w \<Rightarrow> error option \<times> 'w DurationSetting \<times> 'w" where
  "set' d x w =
     (case Validate d x of
        Some err \<Rightarrow> (Some err, d, w)
      | None \<Rightarrow>
          (let old = v d; d' = d\<lparr>v := x\<rparr>
           in if old \<noteq> x then (None, d', changed d' w) else (None, d', w)))"

text \<open>\<^verbatim>\<open>setToDefault\<close>: \<^verbatim>\<open>set(d.defaultValue)\<close>, and a panic with its error.\<close>

definition setToDefault :: "'w DurationSetting \<Rightarrow> 'w \<Rightarrow> panic + 'w DurationSetting \<times> 'w" where
  "setToDefault d w =
     (case set' d (defaultValue d) w of
        (Some err, d', w') \<Rightarrow> Inl (Panic err)
      | (None, d', w') \<Rightarrow> Inr (d', w'))"

text \<open>\<^verbatim>\<open>OnChange\<close>: \<^verbatim>\<open>d.setOnChange(fn); return d\<close>.\<close>

definition OnChange :: "'w DurationSetting \<Rightarrow> ('w \<Rightarrow> 'w) option \<Rightarrow> 'w DurationSetting" where
  "OnChange d fn = setOnChange d fn"

text \<open>\<^verbatim>\<open>TestingDuration\<close>: \<^verbatim>\<open>&DurationSetting{v: int64(v)}\<close>, every other field zero.\<close>

definition TestingDuration :: "duration \<Rightarrow> 'w DurationSetting" where
  "TestingDuration x =
     \<lparr>key = [], description = [], onChange = None,
      defaultValue = 0, v = x, validateFn = None\<rparr>"

subsection \<open>Registration\<close>

text \<open>
  Modelled from the spec: the registry is missing from the sources; the spec calls it "a
  process-wide mapping from string key to setting instance".
\<close>

type_synonym 'w registry = "string \<rightharpoonup> 'w DurationSetting"

text \<open>
  Modelled from the spec: \<^verbatim>\<open>register(key, desc, setting)\<close> is missing from the sources.
  The spec: registration "inserts it into the Registry under a key"; "duplicate-key
  registration is an error the Registry must surface"; the key is "assigned at
  registration"; and the "initial state for a freshly registered setting is currentValue =
  defaultValue": the constructor leaves the slot at its zero value, so "the registration
  path must eagerly store the default" (the spec's scenario: "register with default = 1
  second ... Get() = 1s"). So \<open>register\<close> refuses a key that is defined, and otherwise
  names and describes the setting, stores its default and enters it under its key. A
  setting reaches \<open>register\<close> straight from its constructor, with no hook and a default
  that its validator has accepted; there the source's \<^verbatim>\<open>setToDefault\<close>, which nothing in
  duration.go calls, is exactly this store (lemma \<open>setToDefault_fresh\<close> below).
\<close>

definition register ::
  "'w registry \<Rightarrow> string \<Rightarrow> string \<Rightarrow> 'w DurationSetting \<Rightarrow> panic + 'w DurationSetting \<times> 'w registry" where
  "register reg k desc setting =
     (case reg k of
        Some _ \<Rightarrow> Inl (DuplicateKey k)
      | None \<Rightarrow>
          (let setting' = setting\<lparr>key := k, description := desc, v := defaultValue setting\<rparr>
           in Inr (setting', reg(k \<mapsto> setting'))))"

text \<open>
  \<^verbatim>\<open>RegisterValidatedDurationSetting\<close>: a validator that rejects the default panics with the
  wrapped error; otherwise the setting is built from the default and the validator alone
  (Go gives every other field, \<^verbatim>\<open>v\<close> among them, its zero value) and registered.
\<close>

definition RegisterValidatedDurationSetting ::
  "'w registry \<Rightarrow> string \<Rightarrow> string \<Rightarrow> duration \<Rightarrow> (duration \<Rightarrow> error option) option
     \<Rightarrow> panic + 'w DurationSetting \<times> 'w registry" where
  "RegisterValidatedDurationSetting reg k desc dflt vfn =
     (case (case vfn of None \<Rightarrow> None | Some f \<Rightarrow> f dflt) of
        Some err \<Rightarrow> Inl (Panic (Wrap err ''invalid default''))
      | None \<Rightarrow>
          (let setting =
                 \<lparr>key = [], description = [], onChange = None,
                  defaultValue = dflt, v = 0, validateFn = vfn\<rparr>
           in register reg k desc setting))"

text \<open>\<^verbatim>\<open>RegisterDurationSetting\<close>: no validator.\<close>

definition RegisterDurationSetting ::
  "'w registry \<Rightarrow> string \<Rightarrow> string \<Rightarrow> duration \<Rightarrow> panic + 'w DurationSetting \<times> 'w registry" where
  "RegisterDurationSetting reg k desc dflt =
     RegisterValidatedDurationSetting reg k desc dflt None"

text \<open>
  The closure that \<^verbatim>\<open>RegisterNonNegativeDurationSetting\<close> passes as validator; \<^verbatim>\<open>v < 0\<close> is
  the signed comparison of \<^verbatim>\<open>int64\<close>.
\<close>

definition nonNegative :: "string \<Rightarrow> duration \<Rightarrow> error option" where
  "nonNegative k x =
     (if x <s 0
      then Some (Errorf ''cannot set %s to a negative duration: %s'' [StrArg k, DurArg x])
      else None)"

definition RegisterNonNegativeDurationSetting ::
  "'w registry \<Rightarrow> string \<Rightarrow> string \<Rightarrow> duration \<Rightarrow> panic + 'w DurationSetting \<times> 'w registry" where
  "RegisterNonNegativeDurationSetting reg k desc dflt =
     RegisterValidatedDurationSetting reg k desc dflt (Some (nonNegative k))"

subsection \<open>Callers\<close>

text \<open>
  What a registration call hands to its caller: the setting, or nothing when it panicked;
  and the registry it leaves behind.
\<close>

definition registered :: "panic + 'w DurationSetting \<times> 'w registry \<Rightarrow> 'w DurationSetting option" where
  "registered r = (case r of Inl p \<Rightarrow> None | Inr (d, reg') \<Rightarrow> Some d)"

definition registry_after :: "'w registry \<Rightarrow> panic + 'w DurationSetting \<times> 'w registry \<Rightarrow> 'w registry" where
  "registry_after reg r = (case r of Inl p \<Rightarrow> reg | Inr (d, reg') \<Rightarrow> reg')"

text \<open>
  A caller's use of a setting is a sequence of method calls. \<^verbatim>\<open>Get\<close> changes nothing; the
  error of \<^verbatim>\<open>set\<close> goes back to the caller, who carries on; a panic of \<^verbatim>\<open>setToDefault\<close> ends
  the sequence.
\<close>

datatype 'w call =
  CallGet
| CallSet duration
| CallSetToDefault
| CallOnChange "('w \<Rightarrow> 'w) option"

fun exec :: "'w call \<Rightarrow> 'w DurationSetting \<times> 'w \<Rightarrow> panic + 'w DurationSetting \<times> 'w" where
  "exec CallGet (d, w) = Inr (d, w)"
| "exec (CallSet x) (d, w) = Inr (snd (set' d x w))"
| "exec CallSetToDefault (d, w) = setToDefault d w"
| "exec (CallOnChange fn) (d, w) = Inr (OnChange d fn, w)"

fun exec_all :: "'w call list \<Rightarrow> 'w DurationSetting \<times> 'w \<Rightarrow> panic + 'w DurationSetting \<times> 'w" where
  "exec_all [] s = Inr s"
| "exec_all (c # cs) s = (case exec c s of Inl p \<Rightarrow> Inl p | Inr s' \<Rightarrow> exec_all cs s')"

text \<open>
  A call that stores a value in a setting with validator \<open>vfn\<close>: a \<^verbatim>\<open>set\<close> of a value the
  validator accepts (every value when there is none), or a \<^verbatim>\<open>setToDefault\<close>.
\<close>

fun stores :: "(duration \<Rightarrow> error option) option \<Rightarrow> 'w call \<Rightarrow> bool" where
  "stores vfn CallGet = False"
| "stores vfn (CallSet x) = (case vfn of None \<Rightarrow> True | Some f \<Rightarrow> f x = None)"
| "stores vfn CallSetToDefault = True"
| "stores vfn (CallOnChange fn) = False"

text \<open>The spec's invariant: the stored value satisfies the validator, or there is none.\<close>

definition valid_stored :: "'w DurationSetting \<Rightarrow> bool" where
  "valid_stored d = (Validate d (Get d) = None)"

text \<open>
  The spec's "carries the key and the rejected value": both are among the arguments the
  error was formatted from, under any wrapping.
\<close>

fun carries :: "error \<Rightarrow> string \<Rightarrow> duration \<Rightarrow> bool" where
  "carries (Errorf fmt args) k x = (StrArg k \<in> set args \<and> DurArg x \<in> set args)"
| "carries (Wrap err msg) k x = carries err k x"

text \<open>
  What a registration call fixes for the life of a setting: its key, its default and its
  validator, the default being one the validator accepts.
\<close>

definition fixed :: "string \<Rightarrow> duration \<Rightarrow> (duration \<Rightarrow> error option) option \<Rightarrow> 'w DurationSetting \<Rightarrow> bool" where
  "fixed k dflt vfn d =
     (key d = k \<and> defaultValue d = dflt \<and> validateFn d = vfn \<and>
      (case vfn of None \<Rightarrow> True | Some f \<Rightarrow> f dflt = None))"

section \<open>Properties\<close>

subsection \<open>The methods, one call at a time\<close>

lemma Validate_cases:
  "Validate d x = (case validateFn d of None \<Rightarrow> None | Some f \<Rightarrow> f x)"
  by (simp add: Validate_def split: option.splits)

lemma changed_more: "changed (d\<lparr>v := x\<rparr>) w = changed d w"
  by (simp add: changed_def)

lemma set'_ok:
  "Validate d x = None \<Longrightarrow>
   set' d x w = (None, d\<lparr>v := x\<rparr>, if v d \<noteq> x then changed d w else w)"
  by (simp add: set'_def Let_def changed_more Validate_cases)

lemma set'_err:
  "Validate d x = Some err \<Longrightarrow> set' d x w = (Some err, d, w)"
  by (simp add: set'_def)

lemma set'_fst: "fst (set' d x w) = Validate d x"
  by (cases "Validate d x") (simp_all add: set'_ok set'_err)

lemma set'_fields:
  "defaultValue (fst (snd (set' d x w))) = defaultValue d"
  "validateFn (fst (snd (set' d x w))) = validateFn d"
  "key (fst (snd (set' d x w))) = key d"
  by (cases "Validate d x"; simp add: set'_ok set'_err)+

lemma Validate_upd: "Validate (d\<lparr>v := y\<rparr>) x = Validate d x"
  by (simp add: Validate_def)

lemma set'_stores_valid:
  "Validate d x = None \<Longrightarrow> valid_stored (fst (snd (set' d x w)))"
  by (simp add: set'_ok valid_stored_def Get_def Validate_upd)

lemma setToDefault_ok:
  "Validate d (defaultValue d) = None \<Longrightarrow>
   setToDefault d w =
     Inr (d\<lparr>v := defaultValue d\<rparr>, if v d \<noteq> defaultValue d then changed d w else w)"
  by (simp add: setToDefault_def set'_ok)

lemma setToDefault_fresh:
  "onChange d = None \<Longrightarrow> Validate d (defaultValue d) = None \<Longrightarrow>
   setToDefault d w = Inr (d\<lparr>v := defaultValue d\<rparr>, w)"
  by (simp add: setToDefault_ok changed_def)

lemma fixed_Validate_default: "fixed k dflt vfn d \<Longrightarrow> Validate d (defaultValue d) = None"
  by (auto simp: fixed_def Validate_cases split: option.splits)

lemma Register_Inr:
  assumes "RegisterValidatedDurationSetting reg k desc dflt vfn = Inr (d, reg')"
  shows "d = \<lparr>key = k, description = desc, onChange = None,
               defaultValue = dflt, v = dflt, validateFn = vfn\<rparr>"
    and "reg' = reg(k \<mapsto> d)"
    and "reg k = None"
    and "case vfn of None \<Rightarrow> True | Some f \<Rightarrow> f dflt = None"
  using assms
  by (auto simp: RegisterValidatedDurationSetting_def register_def Let_def
           split: option.splits)

lemma Register_fixed:
  "RegisterValidatedDurationSetting reg k desc dflt vfn = Inr (d, reg') \<Longrightarrow> fixed k dflt vfn d"
  by (frule Register_Inr(1), frule Register_Inr(4)) (simp add: fixed_def)

lemma exec_fixed:
  assumes "fixed k dflt vfn d"
  shows "\<exists>d' w'. exec c (d, w) = Inr (d', w') \<and> fixed k dflt vfn d'"
proof (cases c)
  case CallGet
  with assms show ?thesis by simp
next
  case (CallSet x)
  have "exec c (d, w) = Inr (fst (snd (set' d x w)), snd (snd (set' d x w)))"
    using CallSet by simp
  moreover have "fixed k dflt vfn (fst (snd (set' d x w)))"
    using assms by (simp add: fixed_def set'_fields)
  ultimately show ?thesis by blast
next
  case CallSetToDefault
  from assms have "Validate d (defaultValue d) = None"
    by (rule fixed_Validate_default)
  then have "exec c (d, w) =
      Inr (d\<lparr>v := defaultValue d\<rparr>, if v d \<noteq> defaultValue d then changed d w else w)"
    using CallSetToDefault by (simp add: setToDefault_ok)
  moreover have "fixed k dflt vfn (d\<lparr>v := defaultValue d\<rparr>)"
    using assms by (simp add: fixed_def)
  ultimately show ?thesis by blast
next
  case (CallOnChange fn)
  with assms show ?thesis by (simp add: OnChange_def setOnChange_def fixed_def)
qed

lemma exec_all_fixed:
  "fixed k dflt vfn d \<Longrightarrow> \<exists>d' w'. exec_all cs (d, w) = Inr (d', w') \<and> fixed k dflt vfn d'"
proof (induction cs arbitrary: d w)
  case Nil
  then show ?case by simp
next
  case (Cons c cs)
  from exec_fixed [OF Cons.prems] obtain d1 w1
    where step: "exec c (d, w) = Inr (d1, w1)" and f1: "fixed k dflt vfn d1"
    by blast
  from Cons.IH [OF f1] obtain d' w'
    where "exec_all cs (d1, w1) = Inr (d', w')" and "fixed k dflt vfn d'"
    by blast
  with step show ?case by simp
qed

lemma fixed_stores:
  "fixed k dflt vfn d \<Longrightarrow> stores vfn (CallSet x) = (Validate d x = None)"
  by (auto simp: fixed_def Validate_cases split: option.splits)

lemma exec_stored:
  assumes "fixed k dflt vfn d" and "exec c (d, w) = Inr (d', w')"
  shows "(stores vfn c \<longrightarrow> valid_stored d')
       \<and> (valid_stored d \<longrightarrow> valid_stored d')
       \<and> (\<not> stores vfn c \<longrightarrow> Get d' = Get d)"
proof (cases c)
  case CallGet
  with assms show ?thesis by auto
next
  case (CallSet x)
  with assms have d': "d' = fst (snd (set' d x w))" by auto
  show ?thesis
  proof (cases "Validate d x")
    case None
    then have "stores vfn c"
      using CallSet fixed_stores [OF assms(1), of x] by simp
    then show ?thesis
      using d' None by (simp add: set'_stores_valid)
  next
    case (Some err)
    then have "\<not> stores vfn c"
      using CallSet fixed_stores [OF assms(1), of x] by simp
    then show ?thesis
      using d' Some by (simp add: set'_err)
  qed
next
  case CallSetToDefault
  from assms(1) have ok: "Validate d (defaultValue d) = None"
    by (rule fixed_Validate_default)
  with assms(2) CallSetToDefault have "d' = d\<lparr>v := defaultValue d\<rparr>"
    by (simp add: setToDefault_ok)
  with ok CallSetToDefault show ?thesis
    by (simp add: valid_stored_def Get_def Validate_upd)
next
  case (CallOnChange fn)
  with assms have "d' = d\<lparr>onChange := fn\<rparr>"
    by (auto simp: OnChange_def setOnChange_def)
  then show ?thesis
    using CallOnChange by (simp add: valid_stored_def Get_def Validate_cases)
qed

lemma exec_all_stored:
  assumes "fixed k dflt vfn d" and "exec_all cs (d, w) = Inr (d', w')"
  shows "(list_ex (stores vfn) cs \<longrightarrow> valid_stored d')
       \<and> (valid_stored d \<longrightarrow> valid_stored d')
       \<and> (\<not> list_ex (stores vfn) cs \<longrightarrow> Get d' = Get d)"
  using assms
proof (induction cs arbitrary: d w)
  case Nil
  then show ?case by simp
next
  case (Cons c cs)
  from exec_fixed [OF Cons.prems(1)] obtain d1 w1
    where step: "exec c (d, w) = Inr (d1, w1)" and f1: "fixed k dflt vfn d1"
    by blast
  with Cons.prems(2) have rest: "exec_all cs (d1, w1) = Inr (d', w')" by simp
  note s = exec_stored [OF Cons.prems(1) step]
  note r = Cons.IH [OF f1 rest]
  from s r show ?case by auto
qed

subsection \<open>Durations used as examples\<close>

lemma Second_not_neg: "\<not> Second <s 0"
  by (simp add: Second_def Nanosecond_def word_sless_alt)

lemma Second_nonzero: "Second \<noteq> 0"
  by (simp add: Second_def Nanosecond_def)

lemma neg_Second_neg: "- Second <s 0"
  by (simp add: Second_def Nanosecond_def word_sless_alt)

lemma five_Second_not_neg: "\<not> 5 * Second <s 0"
  by (simp add: Second_def Nanosecond_def word_sless_alt)

lemma five_Second_nonzero: "5 * Second \<noteq> 0"
  by (simp add: Second_def Nanosecond_def)

subsection \<open>Registration, one call at a time\<close>

lemma Register_ok:
  assumes "case vfn of None \<Rightarrow> True | Some f \<Rightarrow> f dflt = None" and "reg k = None"
  shows "RegisterValidatedDurationSetting reg k desc dflt vfn =
           Inr (\<lparr>key = k, description = desc, onChange = None,
                  defaultValue = dflt, v = dflt, validateFn = vfn\<rparr>,
                reg(k \<mapsto> \<lparr>key = k, description = desc, onChange = None,
                  defaultValue = dflt, v = dflt, validateFn = vfn\<rparr>))"
  using assms
  by (simp add: RegisterValidatedDurationSetting_def register_def Let_def split: option.splits)

lemma Register_rejected:
  assumes "vfn = Some f" and "f dflt = Some err"
  shows "RegisterValidatedDurationSetting reg k desc dflt vfn =
           Inl (Panic (Wrap err ''invalid default''))"
  using assms by (simp add: RegisterValidatedDurationSetting_def)

lemma Register_duplicate:
  assumes "case vfn of None \<Rightarrow> True | Some f \<Rightarrow> f dflt = None" and "reg k = Some d1"
  shows "RegisterValidatedDurationSetting reg k desc dflt vfn = Inl (DuplicateKey k)"
  using assms
  by (simp add: RegisterValidatedDurationSetting_def register_def Let_def split: option.splits)

lemma nonNegative_Second: "nonNegative k Second = None"
  by (simp add: nonNegative_def Second_not_neg)

lemma RegisterNonNegative_Second:
  "RegisterNonNegativeDurationSetting Map.empty k desc Second =
     Inr (\<lparr>key = k, description = desc, onChange = None,
            defaultValue = Second, v = Second, validateFn = Some (nonNegative k)\<rparr>,
          [k \<mapsto> \<lparr>key = k, description = desc, onChange = None,
            defaultValue = Second, v = Second, validateFn = Some (nonNegative k)\<rparr>])"
  unfolding RegisterNonNegativeDurationSetting_def
  by (rule Register_ok) (simp_all add: nonNegative_Second)

section \<open>The claims\<close>

subsection \<open>Reading a fresh setting\<close>

text \<open>
  Claim C1. For a setting that a registration call returned, as long as no call has stored
  a value (there have been only \<^verbatim>\<open>Get\<close>s, \<^verbatim>\<open>OnChange\<close>s and rejected \<^verbatim>\<open>set\<close>s), \<^verbatim>\<open>Get\<close>
  returns the setting's default, which is the default given at registration. In particular
  \<^verbatim>\<open>Get\<close> is one second right after a registration with a default of one second and the
  non-negative validator.
\<close>

theorem Get_default_until_stored:
  assumes "RegisterValidatedDurationSetting reg k desc dflt vfn = Inr (d0, reg')"
      and "exec_all cs (d0, w) = Inr (d, w')"
      and "\<not> list_ex (stores vfn) cs"
  shows "Get d = defaultValue d \<and> defaultValue d = dflt"
proof -
  from assms(1) have f0: "fixed k dflt vfn d0"
    by (rule Register_fixed)
  from Register_Inr(1) [OF assms(1)] have z: "Get d0 = dflt"
    by (simp add: Get_def)
  from exec_all_stored [OF f0 assms(2)] assms(3) z have g: "Get d = dflt"
    by simp
  from exec_all_fixed [OF f0, of cs w] assms(2) have "fixed k dflt vfn d"
    by simp
  then have "defaultValue d = dflt"
    by (simp add: fixed_def)
  with g show ?thesis
    by simp
qed

theorem Get_default_until_stored_witness:
  "\<exists>d0 reg' d w'.
     RegisterNonNegativeDurationSetting Map.empty ''k'' ''desc'' Second = Inr (d0, reg')
     \<and> exec_all [] (d0, 0::nat) = Inr (d0, 0)
     \<and> Get d0 = Second
     \<and> exec_all [CallGet, CallSet (- Second)] (d0, 0::nat) = Inr (d, w')
     \<and> list_ex (stores (Some (nonNegative ''k''))) [CallGet, CallSet (- Second) :: nat call] = False
     \<and> Get d = Second \<and> defaultValue d = Second"
proof -
  let ?d = "\<lparr>key = ''k'', description = ''desc'', onChange = None,
             defaultValue = Second, v = Second, validateFn = Some (nonNegative ''k'')\<rparr> :: nat DurationSetting"
  have r: "RegisterValidatedDurationSetting Map.empty ''k'' ''desc'' Second (Some (nonNegative ''k''))
             = Inr (?d, [''k'' \<mapsto> ?d])"
    using RegisterNonNegative_Second [of "''k''" "''desc''"]
    by (simp add: RegisterNonNegativeDurationSetting_def)
  have n: "nonNegative ''k'' (- Second) \<noteq> None"
    by (simp add: nonNegative_def neg_Second_neg)
  have e0: "exec_all [] (?d, 0::nat) = Inr (?d, 0)"
    by simp
  have s0: "\<not> list_ex (stores (Some (nonNegative ''k''))) ([] :: nat call list)"
    by simp
  have e: "exec_all [CallGet, CallSet (- Second)] (?d, 0::nat) = Inr (?d, 0)"
    using n by (auto simp: set'_def Validate_cases)
  have s: "\<not> list_ex (stores (Some (nonNegative ''k''))) [CallGet, CallSet (- Second) :: nat call]"
    using n by simp
  from Get_default_until_stored [OF r e0 s0] Get_default_until_stored [OF r e s] r e s
  show ?thesis
    by (simp add: RegisterNonNegativeDurationSetting_def)
qed

subsection \<open>Writing: accepted, rejected, notified\<close>

text \<open>
  Claim C2. For every duration the validator accepts (it returns no error, or the setting
  has no validator), \<^verbatim>\<open>set\<close> returns no error and a following \<^verbatim>\<open>Get\<close> returns exactly that
  duration.
\<close>

theorem set_accepted_then_Get:
  assumes "case validateFn d of None \<Rightarrow> True | Some f \<Rightarrow> f x = None"
  shows "fst (set' d x w) = None \<and> Get (fst (snd (set' d x w))) = x"
proof -
  from assms have "Validate d x = None"
    by (simp add: Validate_cases split: option.splits)
  then show ?thesis
    by (simp add: set'_ok Get_def)
qed

theorem set_accepted_then_Get_witness:
  "\<exists>d reg'. RegisterNonNegativeDurationSetting Map.empty ''k'' ''desc'' Second = Inr (d, reg')
     \<and> validateFn d = Some (nonNegative ''k'')
     \<and> nonNegative ''k'' (5 * Second) = None
     \<and> fst (set' d (5 * Second) (0::nat)) = None
     \<and> Get (fst (snd (set' d (5 * Second) (0::nat)))) = 5 * Second"
proof -
  let ?d = "\<lparr>key = ''k'', description = ''desc'', onChange = None,
             defaultValue = Second, v = Second, validateFn = Some (nonNegative ''k'')\<rparr> :: nat DurationSetting"
  have r: "RegisterNonNegativeDurationSetting Map.empty ''k'' ''desc'' Second = Inr (?d, [''k'' \<mapsto> ?d])"
    by (simp add: RegisterNonNegativeDurationSetting_def RegisterValidatedDurationSetting_def
        register_def nonNegative_def Second_not_neg Let_def)
  have a: "nonNegative ''k'' (5 * Second) = None"
    by (simp add: nonNegative_def five_Second_not_neg)
  have h: "case validateFn ?d of None \<Rightarrow> True | Some f \<Rightarrow> f (5 * Second) = None"
    by (simp add: a)
  from set_accepted_then_Get [OF h, of 0] r a show ?thesis
    by simp
qed

text \<open>
  Claim C3. For every duration the validator rejects, \<^verbatim>\<open>set\<close> returns the validator's error
  and changes nothing: the setting is the one before the call, so \<^verbatim>\<open>Get\<close> and \<^verbatim>\<open>String\<close>
  (under any encoder) return what they returned before, and the surrounding program's state
  is untouched, whatever the hook is: the hook has not run.
\<close>

theorem set_rejected_unchanged:
  assumes "validateFn d = Some f" and "f x = Some err"
  shows "fst (set' d x w) = Some err
       \<and> fst (snd (set' d x w)) = d
       \<and> Get (fst (snd (set' d x w))) = Get d
       \<and> String' EncodeDuration (fst (snd (set' d x w))) = String' EncodeDuration d
       \<and> snd (snd (set' d x w)) = w"
proof -
  from assms have "Validate d x = Some err"
    by (simp add: Validate_cases)
  then have "set' d x w = (Some err, d, w)"
    by (rule set'_err)
  then show ?thesis by simp
qed

theorem set_rejected_unchanged_witness:
  "\<exists>d reg'. RegisterNonNegativeDurationSetting Map.empty ''k'' ''desc'' Second = Inr (d, reg')
     \<and> validateFn d = Some (nonNegative ''k'')
     \<and> nonNegative ''k'' (- Second) =
           Some (Errorf ''cannot set %s to a negative duration: %s'' [StrArg ''k'', DurArg (- Second)])
     \<and> fst (set' (OnChange d (Some Suc)) (- Second) (0::nat)) =
           Some (Errorf ''cannot set %s to a negative duration: %s'' [StrArg ''k'', DurArg (- Second)])
     \<and> fst (snd (set' (OnChange d (Some Suc)) (- Second) 0)) = OnChange d (Some Suc)
     \<and> Get (fst (snd (set' (OnChange d (Some Suc)) (- Second) 0))) = Second
     \<and> String' (\<lambda>x. if x = Second then ''1s'' else ''?'')
           (fst (snd (set' (OnChange d (Some Suc)) (- Second) 0))) = ''1s''
     \<and> snd (snd (set' (OnChange d (Some Suc)) (- Second) 0)) = 0"
proof -
  let ?d = "\<lparr>key = ''k'', description = ''desc'', onChange = None,
             defaultValue = Second, v = Second, validateFn = Some (nonNegative ''k'')\<rparr> :: nat DurationSetting"
  let ?e = "Errorf ''cannot set %s to a negative duration: %s'' [StrArg ''k'', DurArg (- Second)]"
  have r: "RegisterNonNegativeDurationSetting Map.empty ''k'' ''desc'' Second = Inr (?d, [''k'' \<mapsto> ?d])"
    by (simp add: RegisterNonNegativeDurationSetting_def RegisterValidatedDurationSetting_def
        register_def nonNegative_def Second_not_neg Let_def)
  have a: "nonNegative ''k'' (- Second) = Some ?e"
    by (simp add: nonNegative_def neg_Second_neg)
  have h: "validateFn (OnChange ?d (Some Suc)) = Some (nonNegative ''k'')"
    by (simp add: OnChange_def setOnChange_def)
  from set_rejected_unchanged [OF h a, where w = 0
      and EncodeDuration = "\<lambda>x. if x = Second then ''1s'' else ''?''"] r a
  show ?thesis
    by (simp add: OnChange_def setOnChange_def Get_def String'_def)
qed

text \<open>
  Claim C4. On a successful \<^verbatim>\<open>set\<close> the program's state afterwards is the hook applied once
  exactly when the new word differs from the stored one, and is unchanged otherwise (also
  when there is no hook). A second \<^verbatim>\<open>set\<close> of the same value right after returns what its
  validation returns, which is again no error, and leaves the setting and the program's
  state as they are: it validates and does not notify.
\<close>

theorem set_notifies_iff_changed:
  assumes "Validate d x = None"
  shows "snd (snd (set' d x w)) =
           (if v d \<noteq> x then (case onChange d of None \<Rightarrow> w | Some fn \<Rightarrow> fn w) else w)
       \<and> set' (fst (snd (set' d x w))) x w1 =
           (Validate (fst (snd (set' d x w))) x, fst (snd (set' d x w)), w1)
       \<and> Validate (fst (snd (set' d x w))) x = None"
proof -
  let ?d1 = "d\<lparr>v := x\<rparr>"
  have first: "set' d x w = (None, ?d1, if v d \<noteq> x then changed d w else w)"
    using assms by (rule set'_ok)
  have again: "Validate ?d1 x = None"
    using assms by (simp add: Validate_upd)
  have second: "set' ?d1 x w1 = (None, ?d1, w1)"
    using set'_ok [OF again, of w1] by simp
  from first again second show ?thesis
    by (simp add: changed_def)
qed

theorem set_notifies_iff_changed_witness:
  "\<exists>d reg'. RegisterNonNegativeDurationSetting Map.empty ''k'' ''desc'' Second = Inr (d, reg')
     \<and> Validate (OnChange d (Some Suc)) (5 * Second) = None
     \<and> v (OnChange d (Some Suc)) \<noteq> 5 * Second
     \<and> snd (snd (set' (OnChange d (Some Suc)) (5 * Second) (0::nat))) = 1
     \<and> snd (snd (set' (fst (snd (set' (OnChange d (Some Suc)) (5 * Second) 0))) (5 * Second) 1)) = 1
     \<and> fst (set' (fst (snd (set' (OnChange d (Some Suc)) (5 * Second) 0))) (5 * Second) 1) = None"
proof -
  let ?d = "\<lparr>key = ''k'', description = ''desc'', onChange = None,
             defaultValue = Second, v = Second, validateFn = Some (nonNegative ''k'')\<rparr> :: nat DurationSetting"
  have r: "RegisterNonNegativeDurationSetting Map.empty ''k'' ''desc'' Second = Inr (?d, [''k'' \<mapsto> ?d])"
    by (simp add: RegisterNonNegativeDurationSetting_def RegisterValidatedDurationSetting_def
        register_def nonNegative_def Second_not_neg Let_def)
  have h: "Validate (OnChange ?d (Some Suc)) (5 * Second) = None"
    by (simp add: OnChange_def setOnChange_def Validate_cases nonNegative_def five_Second_not_neg)
  have n: "v (OnChange ?d (Some Suc)) \<noteq> 5 * Second"
    by (simp add: OnChange_def setOnChange_def Second_def Nanosecond_def)
  have o: "onChange (OnChange ?d (Some Suc)) = Some Suc"
    by (simp add: OnChange_def setOnChange_def)
  from set_notifies_iff_changed [OF h, of 0 1] r h n o show ?thesis
    by simp
qed

subsection \<open>The stored value and the validator\<close>

text \<open>
  Claim C5. For a setting that a registration call returned, every sequence of \<^verbatim>\<open>Get\<close>,
  \<^verbatim>\<open>set\<close>, \<^verbatim>\<open>setToDefault\<close> and \<^verbatim>\<open>OnChange\<close> calls, the empty one included, runs without a
  panic and ends with a stored value that the setting's validator, which is still the one
  given at registration, accepts.
\<close>

theorem stored_value_always_valid:
  assumes "RegisterValidatedDurationSetting reg k desc dflt vfn = Inr (d0, reg')"
  shows "\<exists>d w'. exec_all cs (d0, w) = Inr (d, w')
           \<and> valid_stored d
           \<and> validateFn d = vfn
           \<and> (case vfn of None \<Rightarrow> True | Some f \<Rightarrow> f (Get d) = None)"
proof -
  from assms have f0: "fixed k dflt vfn d0"
    by (rule Register_fixed)
  from Register_Inr(1) [OF assms] have "Get d0 = defaultValue d0"
    by (simp add: Get_def)
  with fixed_Validate_default [OF f0] have v0: "valid_stored d0"
    by (simp add: valid_stored_def)
  from exec_all_fixed [OF f0, of cs w] obtain d w'
    where run: "exec_all cs (d0, w) = Inr (d, w')" and f: "fixed k dflt vfn d"
    by blast
  from exec_all_stored [OF f0 run] v0 have valid: "valid_stored d"
    by simp
  from f have vf: "validateFn d = vfn"
    by (simp add: fixed_def)
  from valid vf have "case vfn of None \<Rightarrow> True | Some f \<Rightarrow> f (Get d) = None"
    by (simp add: valid_stored_def Validate_cases split: option.splits)
  with run valid vf show ?thesis
    by blast
qed

theorem stored_value_always_valid_witness:
  "\<exists>d0 reg' d w'.
     RegisterValidatedDurationSetting Map.empty ''k'' ''desc'' Second
       (Some [0 \<mapsto> Errorf ''must not be zero'' []]) = Inr (d0, reg')
     \<and> valid_stored d0 \<and> Get d0 = Second
     \<and> exec_all [CallSet 0, CallGet, CallSetToDefault, CallSet (5 * Second), CallSet 0] (d0, 0::nat)
           = Inr (d, w')
     \<and> valid_stored d \<and> Get d = 5 * Second"
proof -
  let ?vfn = "Some [0 \<mapsto> Errorf ''must not be zero'' []]"
  let ?d = "\<lparr>key = ''k'', description = ''desc'', onChange = None,
             defaultValue = Second, v = Second, validateFn = ?vfn\<rparr> :: nat DurationSetting"
  let ?cs = "[CallSet 0, CallGet, CallSetToDefault, CallSet (5 * Second), CallSet 0] :: nat call list"
  have r: "RegisterValidatedDurationSetting Map.empty ''k'' ''desc'' Second ?vfn
             = Inr (?d, [''k'' \<mapsto> ?d])"
    by (rule Register_ok) (simp_all add: Second_nonzero)
  have e0: "exec_all [] (?d, 0::nat) = Inr (?d, 0)"
    by simp
  have e: "exec_all ?cs (?d, 0::nat) = Inr (?d\<lparr>v := 5 * Second\<rparr>, 0)"
    using Second_nonzero five_Second_nonzero
    by (simp add: set'_def setToDefault_def Validate_cases changed_def Let_def)
  from stored_value_always_valid [OF r, of "[]" 0] stored_value_always_valid [OF r, of ?cs 0] r e0 e
  show ?thesis
    by (simp add: Get_def)
qed

subsection \<open>Registration and the default\<close>

text \<open>
  Claim C6, as the code has it. A default that the validator accepts does not make
  registration succeed for every key: the registry of the spec refuses a key that is
  already defined. Registering the key \<open>''k''\<close> a second time, with the non-negative
  validator and a default of one second that it accepts, returns no setting.
\<close>

theorem registration_of_valid_default_counterexample:
  "nonNegative ''k'' Second = None
   \<and> RegisterNonNegativeDurationSetting
         (registry_after Map.empty
            (RegisterDurationSetting (Map.empty :: nat registry) ''k'' ''first'' Second))
         ''k'' ''second'' Second
       = Inl (DuplicateKey ''k'')"
proof -
  have "RegisterDurationSetting (Map.empty :: nat registry) ''k'' ''first'' Second =
          Inr (\<lparr>key = ''k'', description = ''first'', onChange = None,
                 defaultValue = Second, v = Second, validateFn = None\<rparr>,
               [''k'' \<mapsto> \<lparr>key = ''k'', description = ''first'', onChange = None,
                 defaultValue = Second, v = Second, validateFn = None\<rparr>])"
    unfolding RegisterDurationSetting_def by (rule Register_ok) simp_all
  then show ?thesis
    by (simp add: registry_after_def RegisterNonNegativeDurationSetting_def
        Register_duplicate nonNegative_Second)
qed

text \<open>
  Claim C6, amended. A validator that rejects the default makes
  \<^verbatim>\<open>RegisterValidatedDurationSetting\<close> panic with the validator's error wrapped as
  "invalid default", and no setting is returned; when the validator accepts the default (or
  there is none) and the key is not yet in the registry, registration returns the setting,
  entered under its key, with that default and validator. So
  \<^verbatim>\<open>RegisterNonNegativeDurationSetting\<close> returns no setting for a negative default, and
  \<^verbatim>\<open>RegisterDurationSetting\<close> returns one for every default and fresh key.
\<close>

theorem registration_outcome:
  "(vfn = Some f \<and> f dflt = Some err \<longrightarrow>
      RegisterValidatedDurationSetting reg k desc dflt vfn =
        Inl (Panic (Wrap err ''invalid default''))
      \<and> registered (RegisterValidatedDurationSetting reg k desc dflt vfn) = None)
   \<and> ((case vfn of None \<Rightarrow> True | Some f \<Rightarrow> f dflt = None) \<and> reg k = None \<longrightarrow>
      (\<exists>d. RegisterValidatedDurationSetting reg k desc dflt vfn = Inr (d, reg(k \<mapsto> d))
         \<and> defaultValue d = dflt \<and> validateFn d = vfn))
   \<and> (dflt <s 0 \<longrightarrow>
      registered (RegisterNonNegativeDurationSetting reg k desc dflt) = None)
   \<and> (reg k = None \<longrightarrow>
      registered (RegisterDurationSetting reg k desc dflt) \<noteq> None)"
proof (intro conjI impI)
  assume "vfn = Some f \<and> f dflt = Some err"
  then show "RegisterValidatedDurationSetting reg k desc dflt vfn =
      Inl (Panic (Wrap err ''invalid default''))"
    by (simp add: Register_rejected)
  then show "registered (RegisterValidatedDurationSetting reg k desc dflt vfn) = None"
    by (simp add: registered_def)
next
  assume "(case vfn of None \<Rightarrow> True | Some f \<Rightarrow> f dflt = None) \<and> reg k = None"
  then show "\<exists>d. RegisterValidatedDurationSetting reg k desc dflt vfn = Inr (d, reg(k \<mapsto> d))
      \<and> defaultValue d = dflt \<and> validateFn d = vfn"
    by (simp add: Register_ok)
next
  assume "dflt <s 0"
  then have "nonNegative k dflt =
      Some (Errorf ''cannot set %s to a negative duration: %s'' [StrArg k, DurArg dflt])"
    by (simp add: nonNegative_def)
  then show "registered (RegisterNonNegativeDurationSetting reg k desc dflt) = None"
    by (simp add: RegisterNonNegativeDurationSetting_def Register_rejected registered_def)
next
  assume "reg k = None"
  then show "registered (RegisterDurationSetting reg k desc dflt) \<noteq> None"
    by (simp add: RegisterDurationSetting_def Register_ok registered_def)
qed

theorem registration_outcome_witness:
  "nonNegative ''k'' (- Second) =
     Some (Errorf ''cannot set %s to a negative duration: %s'' [StrArg ''k'', DurArg (- Second)])
   \<and> RegisterValidatedDurationSetting (Map.empty :: nat registry) ''k'' ''desc'' (- Second)
         (Some (nonNegative ''k'')) =
       Inl (Panic (Wrap
         (Errorf ''cannot set %s to a negative duration: %s'' [StrArg ''k'', DurArg (- Second)])
         ''invalid default''))
   \<and> nonNegative ''k'' Second = None
   \<and> (\<exists>d. RegisterValidatedDurationSetting (Map.empty :: nat registry) ''k'' ''desc'' Second
         (Some (nonNegative ''k'')) = Inr (d, [''k'' \<mapsto> d])
        \<and> defaultValue d = Second \<and> validateFn d = Some (nonNegative ''k''))
   \<and> - Second <s 0
   \<and> registered (RegisterNonNegativeDurationSetting (Map.empty :: nat registry)
         ''k'' ''desc'' (- Second)) = None
   \<and> registered (RegisterDurationSetting (Map.empty :: nat registry) ''k'' ''desc'' Second) \<noteq> None"
proof -
  let ?e = "Errorf ''cannot set %s to a negative duration: %s'' [StrArg ''k'', DurArg (- Second)]"
  have a: "nonNegative ''k'' (- Second) = Some ?e"
    by (simp add: nonNegative_def neg_Second_neg)
  note t1 = registration_outcome [where vfn = "Some (nonNegative ''k'')" and f = "nonNegative ''k''"
      and dflt = "- Second" and err = ?e and reg = "Map.empty :: nat registry" and k = "''k''"
      and desc = "''desc''"]
  note t2 = registration_outcome [where vfn = "Some (nonNegative ''k'')" and f = "nonNegative ''k''"
      and dflt = Second and err = ?e and reg = "Map.empty :: nat registry" and k = "''k''"
      and desc = "''desc''"]
  from t1 t2 a show ?thesis
    by (simp add: nonNegative_Second neg_Second_neg)
qed

text \<open>
  Claim C7. For a setting that a registration call returned, after any sequence of calls
  (none of which panics), \<^verbatim>\<open>set(defaultValue)\<close> returns no error and \<^verbatim>\<open>setToDefault\<close> returns
  without a panic: the default and the validator never change, and the validator accepted
  the default at registration.
\<close>

theorem setToDefault_never_fails:
  assumes "RegisterValidatedDurationSetting reg k desc dflt vfn = Inr (d0, reg')"
  shows "\<exists>d w'. exec_all cs (d0, w) = Inr (d, w')
           \<and> fst (set' d (defaultValue d) w1) = None
           \<and> (\<exists>d2 w2. setToDefault d w1 = Inr (d2, w2))"
proof -
  from assms have "fixed k dflt vfn d0"
    by (rule Register_fixed)
  from exec_all_fixed [OF this, of cs w] obtain d w'
    where run: "exec_all cs (d0, w) = Inr (d, w')" and f: "fixed k dflt vfn d"
    by blast
  from f have ok: "Validate d (defaultValue d) = None"
    by (rule fixed_Validate_default)
  then have "fst (set' d (defaultValue d) w1) = None"
    by (simp add: set'_fst)
  moreover from ok have "\<exists>d2 w2. setToDefault d w1 = Inr (d2, w2)"
    by (simp add: setToDefault_ok)
  ultimately show ?thesis
    using run by blast
qed

theorem setToDefault_never_fails_witness:
  "\<exists>d0 reg' d w' d2 w2.
     RegisterNonNegativeDurationSetting Map.empty ''k'' ''desc'' Second = Inr (d0, reg')
     \<and> exec_all [CallOnChange (Some Suc), CallSet (5 * Second), CallSet (- Second)] (d0, 0::nat)
           = Inr (d, w')
     \<and> fst (set' d (defaultValue d) w') = None
     \<and> setToDefault d w' = Inr (d2, w2) \<and> Get d2 = Second \<and> w2 = 2"
proof -
  let ?d = "\<lparr>key = ''k'', description = ''desc'', onChange = None,
             defaultValue = Second, v = Second, validateFn = Some (nonNegative ''k'')\<rparr> :: nat DurationSetting"
  let ?cs = "[CallOnChange (Some Suc), CallSet (5 * Second), CallSet (- Second)] :: nat call list"
  have r: "RegisterValidatedDurationSetting Map.empty ''k'' ''desc'' Second (Some (nonNegative ''k''))
             = Inr (?d, [''k'' \<mapsto> ?d])"
    using RegisterNonNegative_Second [of "''k''" "''desc''"]
    by (simp add: RegisterNonNegativeDurationSetting_def)
  have e: "exec_all ?cs (?d, 0) = Inr (?d\<lparr>onChange := Some Suc, v := 5 * Second\<rparr>, 1)"
    by (simp add: set'_def OnChange_def setOnChange_def Validate_cases changed_def nonNegative_def
        Let_def Second_def Nanosecond_def word_sless_alt)
  have n: "5 * Second \<noteq> Second"
    by (simp add: Second_def Nanosecond_def)
  have s: "setToDefault (?d\<lparr>onChange := Some Suc, v := 5 * Second\<rparr>) (1::nat)
             = Inr (?d\<lparr>onChange := Some Suc, v := Second\<rparr>, 2)"
    using n by (simp add: setToDefault_def set'_def Validate_cases changed_def nonNegative_Second)
  from setToDefault_never_fails [OF r, of ?cs 0 1] r e s show ?thesis
    by (simp add: RegisterNonNegativeDurationSetting_def Get_def)
qed

subsection \<open>Validation errors\<close>

text \<open>
  Claim C8, as the code has it. \<^verbatim>\<open>Validate\<close> and \<^verbatim>\<open>set\<close> return the validator's error as it
  is. A setting registered under \<open>''k''\<close> through \<^verbatim>\<open>RegisterValidatedDurationSetting\<close> with a
  validator whose error for the zero duration names neither a key nor a value returns
  exactly that error, which carries neither the setting's key nor the rejected value.
\<close>

theorem error_carries_key_counterexample:
  "map_option key (registered (RegisterValidatedDurationSetting (Map.empty :: nat registry)
       ''k'' ''desc'' Second (Some [0 \<mapsto> Errorf ''must not be zero'' []]))) = Some ''k''
   \<and> map_option (\<lambda>d. Validate d 0) (registered (RegisterValidatedDurationSetting
       (Map.empty :: nat registry) ''k'' ''desc'' Second
       (Some [0 \<mapsto> Errorf ''must not be zero'' []]))) = Some (Some (Errorf ''must not be zero'' []))
   \<and> map_option (\<lambda>d. fst (set' d 0 0)) (registered (RegisterValidatedDurationSetting
       (Map.empty :: nat registry) ''k'' ''desc'' Second
       (Some [0 \<mapsto> Errorf ''must not be zero'' []]))) = Some (Some (Errorf ''must not be zero'' []))
   \<and> \<not> carries (Errorf ''must not be zero'' []) ''k'' 0"
proof -
  have "RegisterValidatedDurationSetting (Map.empty :: nat registry) ''k'' ''desc'' Second
          (Some [0 \<mapsto> Errorf ''must not be zero'' []]) =
        Inr (\<lparr>key = ''k'', description = ''desc'', onChange = None, defaultValue = Second, v = Second,
               validateFn = Some [0 \<mapsto> Errorf ''must not be zero'' []]\<rparr>,
             [''k'' \<mapsto> \<lparr>key = ''k'', description = ''desc'', onChange = None,
               defaultValue = Second, v = Second,
               validateFn = Some [0 \<mapsto> Errorf ''must not be zero'' []]\<rparr>])"
    by (rule Register_ok) (simp_all add: Second_nonzero)
  then show ?thesis
    by (simp add: registered_def set'_fst Validate_cases)
qed

text \<open>
  Claim C8, amended. The error of \<^verbatim>\<open>set\<close> is the error of \<^verbatim>\<open>Validate\<close>, and every error of
  \<^verbatim>\<open>Validate\<close> is the error the setting's validator returned for that value, unchanged. For
  a setting of \<^verbatim>\<open>RegisterNonNegativeDurationSetting\<close>, at any later time, that error is
  "cannot set %s to a negative duration: %s" formatted from the setting's key and the
  rejected value, so it carries both; a setting of \<^verbatim>\<open>RegisterDurationSetting\<close> returns no
  error at all.
\<close>

theorem validation_errors_pass_through:
  "fst (set' d x w) = Validate d x
   \<and> (Validate d x = Some err \<longrightarrow> (\<exists>f. validateFn d = Some f \<and> f x = Some err))
   \<and> (RegisterNonNegativeDurationSetting reg k desc dflt = Inr (d0, reg')
        \<and> exec_all cs (d0, w0) = Inr (d, w') \<and> Validate d x = Some err \<longrightarrow>
          key d = k
          \<and> err = Errorf ''cannot set %s to a negative duration: %s'' [StrArg k, DurArg x]
          \<and> carries err (key d) x)
   \<and> (RegisterDurationSetting reg k desc dflt = Inr (d0, reg')
        \<and> exec_all cs (d0, w0) = Inr (d, w') \<longrightarrow> Validate d x = None)"
proof (intro conjI impI)
  show "fst (set' d x w) = Validate d x"
    by (rule set'_fst)
next
  assume "Validate d x = Some err"
  then show "\<exists>f. validateFn d = Some f \<and> f x = Some err"
    by (simp add: Validate_cases split: option.splits)
next
  assume a: "RegisterNonNegativeDurationSetting reg k desc dflt = Inr (d0, reg')
    \<and> exec_all cs (d0, w0) = Inr (d, w') \<and> Validate d x = Some err"
  then have "RegisterValidatedDurationSetting reg k desc dflt (Some (nonNegative k)) = Inr (d0, reg')"
    by (simp add: RegisterNonNegativeDurationSetting_def)
  then have "fixed k dflt (Some (nonNegative k)) d0"
    by (rule Register_fixed)
  from exec_all_fixed [OF this, of cs w0] a have f: "fixed k dflt (Some (nonNegative k)) d"
    by simp
  then show kd: "key d = k"
    by (simp add: fixed_def)
  from f a have "nonNegative k x = Some err"
    by (simp add: fixed_def Validate_cases)
  then show e: "err = Errorf ''cannot set %s to a negative duration: %s'' [StrArg k, DurArg x]"
    by (simp add: nonNegative_def split: if_splits)
  from kd e show "carries err (key d) x"
    by simp
next
  assume a: "RegisterDurationSetting reg k desc dflt = Inr (d0, reg')
    \<and> exec_all cs (d0, w0) = Inr (d, w')"
  then have "RegisterValidatedDurationSetting reg k desc dflt None = Inr (d0, reg')"
    by (simp add: RegisterDurationSetting_def)
  then have "fixed k dflt None d0"
    by (rule Register_fixed)
  from exec_all_fixed [OF this, of cs w0] a have "fixed k dflt None d"
    by simp
  then show "Validate d x = None"
    by (simp add: fixed_def Validate_cases)
qed

theorem validation_errors_pass_through_witness:
  "\<exists>d0 reg' d w'.
     RegisterNonNegativeDurationSetting Map.empty ''k'' ''desc'' Second = Inr (d0, reg')
     \<and> exec_all [CallSet (5 * Second)] (d0, 0::nat) = Inr (d, w')
     \<and> Validate d (- Second) =
           Some (Errorf ''cannot set %s to a negative duration: %s'' [StrArg ''k'', DurArg (- Second)])
     \<and> fst (set' d (- Second) w') = Validate d (- Second)
     \<and> validateFn d = Some (nonNegative ''k'')
     \<and> key d = ''k''
     \<and> carries (Errorf ''cannot set %s to a negative duration: %s''
           [StrArg ''k'', DurArg (- Second)]) (key d) (- Second)"
proof -
  let ?d = "\<lparr>key = ''k'', description = ''desc'', onChange = None,
             defaultValue = Second, v = Second, validateFn = Some (nonNegative ''k'')\<rparr> :: nat DurationSetting"
  let ?e = "Errorf ''cannot set %s to a negative duration: %s'' [StrArg ''k'', DurArg (- Second)]"
  have r: "RegisterNonNegativeDurationSetting Map.empty ''k'' ''desc'' Second = Inr (?d, [''k'' \<mapsto> ?d])"
    by (rule RegisterNonNegative_Second)
  have e: "exec_all [CallSet (5 * Second)] (?d, 0::nat) = Inr (?d\<lparr>v := 5 * Second\<rparr>, 0)"
    using five_Second_not_neg five_Second_nonzero
    by (simp add: set'_def Validate_cases changed_def nonNegative_def Let_def)
  have a: "Validate (?d\<lparr>v := 5 * Second\<rparr>) (- Second) = Some ?e"
    by (simp add: Validate_cases nonNegative_def neg_Second_neg)
  note t = validation_errors_pass_through [where d = "?d\<lparr>v := 5 * Second\<rparr>" and x = "- Second"
      and err = ?e and reg = Map.empty and k = "''k''" and desc = "''desc''" and dflt = Second
      and ?d0.0 = ?d and reg' = "[''k'' \<mapsto> ?d]" and cs = "[CallSet (5 * Second)]"
      and ?w0.0 = 0 and w' = 0 and w = 0]
  from t r e a show ?thesis
    by simp
qed

text \<open>
  Claim C9. The validator that \<^verbatim>\<open>RegisterNonNegativeDurationSetting\<close> installs stays the
  setting's validator, and it returns an error exactly for the durations that are negative
  as signed 64-bit integers; so \<^verbatim>\<open>set(0)\<close> succeeds on such a setting, at any time, and the
  zero duration is stored.
\<close>

theorem nonNegative_rejects_exactly_negative:
  assumes "RegisterNonNegativeDurationSetting reg k desc dflt = Inr (d0, reg')"
      and "exec_all cs (d0, w) = Inr (d, w')"
  shows "validateFn d = Some (nonNegative k)
       \<and> (nonNegative k x \<noteq> None) = (x <s 0)
       \<and> (Validate d x \<noteq> None) = (x <s 0)
       \<and> (x <s 0) = (sint x < 0)
       \<and> fst (set' d 0 w') = None
       \<and> Get (fst (snd (set' d 0 w'))) = 0"
proof -
  from assms(1) have "RegisterValidatedDurationSetting reg k desc dflt (Some (nonNegative k)) = Inr (d0, reg')"
    by (simp add: RegisterNonNegativeDurationSetting_def)
  then have "fixed k dflt (Some (nonNegative k)) d0"
    by (rule Register_fixed)
  from exec_all_fixed [OF this, of cs w] assms(2) have "fixed k dflt (Some (nonNegative k)) d"
    by simp
  then have vf: "validateFn d = Some (nonNegative k)"
    by (simp add: fixed_def)
  have nn: "(nonNegative k x \<noteq> None) = (x <s 0)"
    by (simp add: nonNegative_def)
  from vf have val: "Validate d y = nonNegative k y" for y
    by (simp add: Validate_cases)
  have zero: "Validate d 0 = None"
    by (simp add: val nonNegative_def)
  from vf nn val zero show ?thesis
    by (simp add: set'_ok Get_def word_sless_alt)
qed

theorem nonNegative_rejects_exactly_negative_witness:
  "\<exists>d0 reg' d w'.
     RegisterNonNegativeDurationSetting Map.empty ''k'' ''desc'' Second = Inr (d0, reg')
     \<and> exec_all [CallSetToDefault] (d0, 0::nat) = Inr (d, w')
     \<and> Validate d (- Nanosecond) \<noteq> None \<and> - Nanosecond <s 0
     \<and> Validate d 0 = None
     \<and> fst (set' d 0 w') = None
     \<and> Get (fst (snd (set' d 0 w'))) = 0"
proof -
  let ?d = "\<lparr>key = ''k'', description = ''desc'', onChange = None,
             defaultValue = Second, v = Second, validateFn = Some (nonNegative ''k'')\<rparr> :: nat DurationSetting"
  have r: "RegisterNonNegativeDurationSetting Map.empty ''k'' ''desc'' Second = Inr (?d, [''k'' \<mapsto> ?d])"
    by (rule RegisterNonNegative_Second)
  have e: "exec_all [CallSetToDefault] (?d, 0::nat) = Inr (?d\<lparr>v := Second\<rparr>, 0)"
    using Second_nonzero
    by (simp add: setToDefault_def set'_def Validate_cases changed_def nonNegative_Second)
  have n: "- Nanosecond <s 0"
    by (simp add: Nanosecond_def word_sless_alt)
  from nonNegative_rejects_exactly_negative [OF r e, of "- Nanosecond"]
       nonNegative_rejects_exactly_negative [OF r e, of 0] r e n
  show ?thesis
    by simp
qed

end
